theory Spec2Isabelle
  imports Complex_Main "HOL-Library.Word" "HOL-Library.AList" "HOL-Library.Multiset"
begin

section \<open>Values of the engine\<close>

text \<open>
  A JavaScript string is a sequence of UTF-16 code units. The four suit glyphs of
  \<^verbatim>\<open>CardSuits\<close> are U+2661, U+2662, U+2663 and U+2664, one code unit each; everything
  else the engine writes is ASCII, converted by \<open>u16\<close>.
\<close>

type_synonym jstring = "16 word list"

definition u16 :: "string \<Rightarrow> jstring" where
  "u16 s = map (\<lambda>c. of_nat (of_char c)) s"

text \<open>
  \<^verbatim>\<open>throw new Error(msg)\<close> is \<open>Error msg\<close>; \<open>TypeError\<close> is the exception the runtime
  itself raises (a property read on \<^verbatim>\<open>null\<close> or \<^verbatim>\<open>undefined\<close>, a call of something that
  is not a function, \<^verbatim>\<open>reduce\<close> of an empty array with no initial value).
\<close>

datatype error = Error string | TypeError

text \<open>
  The values that \<^verbatim>\<open>player.deck\<close> and the accumulator of \<^verbatim>\<open>reduce\<close> range over: the
  constructor stores an array of card strings, \<^verbatim>\<open>reduce\<close> without an initial value returns
  an element (a string or \<^verbatim>\<open>null\<close>) or the boolean its callback computed.
\<close>

datatype jsval = Null | Bool bool | Str jstring | Arr "jstring list"

section \<open>The deck\<close>

definition CardLabels :: "jstring list" where
  "CardLabels = [u16 ''2'', u16 ''3'', u16 ''4'', u16 ''5'', u16 ''6'', u16 ''7'', u16 ''8'',
     u16 ''9'', u16 ''10'', u16 ''Jack'', u16 ''Queen'', u16 ''King'', u16 ''Ace'']"

definition CardSuits :: "jstring list" where
  "CardSuits = [[0x2661], [0x2662], [0x2663], [0x2664]]"

definition sepOf :: jstring where
  "sepOf = u16 '' of ''"

text \<open>The template string \<^verbatim>\<open>`${label} of ${suit}`\<close>.\<close>

definition cardString :: "jstring \<Rightarrow> jstring \<Rightarrow> jstring" where
  "cardString label suit = label @ sepOf @ suit"

definition generateCardDeck :: "jstring list" where
  "generateCardDeck = concat (map (\<lambda>label. map (\<lambda>suit. cardString label suit) CardSuits) CardLabels)"

text \<open>
  \<^verbatim>\<open>String.prototype.split(" of ")\<close>: the pieces between the occurrences of the separator,
  found from left to right without overlap; \<open>acc\<close> is the piece being read.
\<close>

fun splitOf :: "jstring \<Rightarrow> jstring \<Rightarrow> jstring list" where
  "splitOf acc [] = [acc]"
| "splitOf acc (c # cs) =
     (if take 4 (c # cs) = sepOf then acc # splitOf [] (drop 3 cs)
      else splitOf (acc @ [c]) cs)"

text \<open>
  \<open>parseCard\<close> is applied to card strings, to the values of the table top, which may be
  \<^verbatim>\<open>null\<close>, and to \<^verbatim>\<open>this.deck[0]\<close>, which is \<^verbatim>\<open>undefined\<close> on an empty deck; \<open>None\<close> stands
  for both, where \<^verbatim>\<open>card.split\<close> raises a TypeError.
\<close>

fun parseCard :: "jstring option \<Rightarrow> error + jstring list" where
  "parseCard None = Inl TypeError"
| "parseCard (Some str) = Inr (splitOf [] str)"

text \<open>
  \<^verbatim>\<open>Math.random\<close> is the parameter \<open>random\<close>: \<open>random k\<close> is the value of call number \<open>k\<close>,
  a number in \<open>[0, 1)\<close> taken as an exact rational, so that
  \<^verbatim>\<open>Math.floor(Math.random() * currentIndex)\<close> is an index below \<open>currentIndex\<close> and every
  access of the loop is in range. Values outside \<open>[0, 1)\<close> are not values of
  \<^verbatim>\<open>Math.random\<close>; the theorems on the loop assume the range.
\<close>

fun shuffleLoop :: "(nat \<Rightarrow> rat) \<Rightarrow> nat \<Rightarrow> nat \<Rightarrow> 'a list \<Rightarrow> 'a list" where
  "shuffleLoop random calls 0 deck = deck"
| "shuffleLoop random calls (Suc n) deck =
     (let randomIndex = nat \<lfloor>random calls * of_nat (Suc n)\<rfloor>;
          currentIndex = n;
          temp = deck ! currentIndex;
          deck = deck[currentIndex := deck ! randomIndex];
          deck = deck[randomIndex := temp]
      in shuffleLoop random (Suc calls) currentIndex deck)"

definition shuffleDeck :: "(nat \<Rightarrow> rat) \<Rightarrow> 'a list \<Rightarrow> 'a list" where
  "shuffleDeck random deck = shuffleLoop random 0 (length deck) deck"

section \<open>Players and the game\<close>

record player =
  deck :: jsval
  startsFirst :: bool
  defending :: bool

text \<open>
  The objects \<^verbatim>\<open>this.players\<close> and \<^verbatim>\<open>this.tableTop\<close> are association lists in the order
  of \<^verbatim>\<open>Object.keys\<close> (insertion order: neither a nanoid of 21 characters nor a card string
  is an array index). A value of the table top is a covering card or \<^verbatim>\<open>null\<close> (\<open>None\<close>).
  \<^verbatim>\<open>this.history\<close> is created empty and never written.
\<close>

record game =
  history :: "(jstring \<times> jstring) list"
  players :: "(jstring \<times> player) list"
  tableTop :: "(jstring \<times> jstring option) list"
  deck :: "jstring list"
  trumpSuite :: "jstring option"

section \<open>Construction of a game\<close>

definition DECK_SIZE :: nat where
  "DECK_SIZE = 6"

definition isInteger :: "rat \<Rightarrow> bool" where
  "isInteger x \<longleftrightarrow> of_int \<lfloor>x\<rfloor> = x"

definition newPlayer :: player where
  "newPlayer = \<lparr>player.deck = Arr [], startsFirst = False, defending = False\<rparr>"

text \<open>
  The loop \<^verbatim>\<open>for (let index = 0; index < players; index++)\<close>; \<open>nanoid i\<close> is the
  identifier drawn in iteration \<open>i\<close> (21 characters of letters, digits, \<^verbatim>\<open>_\<close> and \<^verbatim>\<open>-\<close>).
\<close>

function createPlayers ::
  "(nat \<Rightarrow> jstring) \<Rightarrow> rat \<Rightarrow> nat \<Rightarrow> (jstring \<times> player) list \<Rightarrow> (jstring \<times> player) list" where
  "createPlayers nanoid n i ps =
     (if of_nat i < n
      then createPlayers nanoid n (Suc i) (AList.update (nanoid i) newPlayer ps)
      else ps)"
  by pat_completeness auto
termination
  by (relation "measure (\<lambda>(nanoid, n, i, ps). nat \<lceil>n\<rceil> - i)") (auto, linarith)

text \<open>\<^verbatim>\<open>player.deck.push(card)\<close>; a value without \<^verbatim>\<open>push\<close> raises a TypeError.\<close>

fun push :: "jstring \<Rightarrow> player \<Rightarrow> error + player" where
  "push c p = (case player.deck p of Arr h \<Rightarrow> Inr (p\<lparr>player.deck := Arr (h @ [c])\<rparr>) | _ \<Rightarrow> Inl TypeError)"

text \<open>
  One pass of \<^verbatim>\<open>Object.keys(this.players).forEach\<close>: every player in turn receives the head
  of the stock. On an exhausted stock \<^verbatim>\<open>this.deck.shift()\<close> is \<^verbatim>\<open>undefined\<close> and the stock
  stays empty, so that \<^verbatim>\<open>parseCard(this.deck[0])\<close> raises a TypeError before the constructor
  returns: the pass reports that TypeError at once.
\<close>

fun dealRound ::
  "(jstring \<times> player) list \<Rightarrow> jstring list \<Rightarrow> error + (jstring \<times> player) list \<times> jstring list" where
  "dealRound [] stock = Inr ([], stock)"
| "dealRound ((pid, p) # ps) [] = Inl TypeError"
| "dealRound ((pid, p) # ps) (c # stock) =
     (case push c p of Inl e \<Rightarrow> Inl e
      | Inr p' \<Rightarrow>
         (case dealRound ps stock of Inl e \<Rightarrow> Inl e
          | Inr (ps', stock') \<Rightarrow> Inr ((pid, p') # ps', stock')))"

fun distribute ::
  "nat \<Rightarrow> (jstring \<times> player) list \<Rightarrow> jstring list \<Rightarrow> error + (jstring \<times> player) list \<times> jstring list" where
  "distribute 0 ps stock = Inr (ps, stock)"
| "distribute (Suc n) ps stock =
     (case dealRound ps stock of Inl e \<Rightarrow> Inl e
      | Inr (ps', stock') \<Rightarrow> distribute n ps' stock')"

text \<open>\<^verbatim>\<open>xs[i]\<close> on an array: \<open>None\<close> is \<^verbatim>\<open>undefined\<close>.\<close>

definition index :: "'a list \<Rightarrow> nat \<Rightarrow> 'a option" where
  "index xs i = (if i < length xs then Some (xs ! i) else None)"

text \<open>
  \<^verbatim>\<open>new Game(id, players, history)\<close>; the arguments \<^verbatim>\<open>id\<close> and \<^verbatim>\<open>history\<close> are not
  read. \<open>n\<close> is the argument \<^verbatim>\<open>players\<close>, a number, taken as a rational (\<^verbatim>\<open>NaN\<close> and the
  infinities are left out). The deck is generated and shuffled before the argument is checked.
\<close>

definition new_Game :: "(nat \<Rightarrow> rat) \<Rightarrow> (nat \<Rightarrow> jstring) \<Rightarrow> rat \<Rightarrow> error + game" where
  "new_Game random nanoid n =
     (let stock = shuffleDeck random generateCardDeck in
      if \<not> isInteger n \<and> n < 0 then Inl (Error ''Number of players must be a positive integer.'')
      else if n > 8 then Inl (Error ''Number of players cannot be greater than eight.'')
      else
        (case distribute DECK_SIZE (createPlayers nanoid n 0 []) stock of Inl e \<Rightarrow> Inl e
         | Inr (ps, stock) \<Rightarrow>
            (case parseCard (index stock 0) of Inl e \<Rightarrow> Inl e
             | Inr parts \<Rightarrow>
                Inr \<lparr>history = [], players = ps, tableTop = [],
                     deck = (case stock of [] \<Rightarrow> [] | c # rest \<Rightarrow> rest @ [c]),
                     trumpSuite = index parts 1\<rparr>)))"

section \<open>Adding an attack to the table top\<close>

text \<open>
  \<^verbatim>\<open>Array.prototype.reduce(callback)\<close> without an initial value: a TypeError on the empty
  array, otherwise the first element is the accumulator and the callback is applied to the
  accumulator and each further element (an array of one element is returned as it is).
\<close>

fun reduce :: "(jsval \<Rightarrow> jsval \<Rightarrow> jsval) \<Rightarrow> jsval list \<Rightarrow> error + jsval" where
  "reduce callback [] = Inl TypeError"
| "reduce callback (x # xs) = Inr (foldl callback x xs)"

text \<open>
  The property \<^verbatim>\<open>length\<close>: a TypeError on \<^verbatim>\<open>null\<close>, \<^verbatim>\<open>undefined\<close> (\<open>None\<close>) on a boolean,
  the number of code units of a string, the number of elements of an array.
\<close>

fun lengthOf :: "jsval \<Rightarrow> error + int option" where
  "lengthOf Null = Inl TypeError"
| "lengthOf (Bool b) = Inr None"
| "lengthOf (Str s) = Inr (Some (int (length s)))"
| "lengthOf (Arr xs) = Inr (Some (int (length xs)))"

text \<open>
  \<^verbatim>\<open>keys - coveredCards + 1 > deckLength\<close>: with \<^verbatim>\<open>undefined\<close> on either side the
  left side is \<^verbatim>\<open>NaN\<close> or the right side converts to \<^verbatim>\<open>NaN\<close>, and the comparison is false.
\<close>

fun exceeds :: "nat \<Rightarrow> int option \<Rightarrow> int option \<Rightarrow> bool" where
  "exceeds keys (Some coveredCards) (Some deckLength) \<longleftrightarrow> int keys - coveredCards + 1 > deckLength"
| "exceeds keys _ _ \<longleftrightarrow> False"

text \<open>\<^verbatim>\<open>String.prototype.includes\<close>: \<open>sub\<close> occurs in \<open>s\<close>.\<close>

fun includesStr :: "jstring \<Rightarrow> jstring \<Rightarrow> bool" where
  "includesStr [] sub \<longleftrightarrow> sub = []"
| "includesStr (c # cs) sub \<longleftrightarrow> take (length sub) (c # cs) = sub \<or> includesStr cs sub"

text \<open>
  \<^verbatim>\<open>player.deck.includes(card)\<close>: membership in an array, occurrence in a string, a
  TypeError on a value without the method.
\<close>

fun includesCard :: "jsval \<Rightarrow> jstring \<Rightarrow> error + bool" where
  "includesCard (Arr xs) c = Inr (c \<in> set xs)"
| "includesCard (Str s) c = Inr (includesStr s c)"
| "includesCard _ c = Inl TypeError"

text \<open>\<^verbatim>\<open>CardLabels.includes(x)\<close> where \<open>x\<close> may be \<^verbatim>\<open>undefined\<close>.\<close>

fun inArray :: "jstring option \<Rightarrow> jstring list \<Rightarrow> bool" where
  "inArray None xs \<longleftrightarrow> False"
| "inArray (Some x) xs \<longleftrightarrow> x \<in> set xs"

text \<open>
  The names every object inherits from \<^verbatim>\<open>Object.prototype\<close>. \<^verbatim>\<open>this.players[from]\<close> with
  such a name, when no player has it, is not \<^verbatim>\<open>undefined\<close> but an object without a
  \<^verbatim>\<open>deck\<close>, and the check of the defender's cards raises a TypeError reading
  \<^verbatim>\<open>player.deck.length\<close> (or earlier, in \<^verbatim>\<open>reduce\<close>).
\<close>

definition objectPrototype :: "jstring list" where
  "objectPrototype = map u16 [''constructor'', ''__proto__'', ''hasOwnProperty'',
     ''isPrototypeOf'', ''propertyIsEnumerable'', ''toLocaleString'', ''toString'', ''valueOf'',
     ''__defineGetter__'', ''__defineSetter__'', ''__lookupGetter__'', ''__lookupSetter__'']"

definition lookupPlayer :: "(jstring \<times> player) list \<Rightarrow> jstring \<Rightarrow> error + player" where
  "lookupPlayer ps from =
     (case map_of ps from of
        Some player \<Rightarrow> Inr player
      | None \<Rightarrow> if from \<in> set objectPrototype then Inl TypeError
                else Inl (Error ''Player doesn't exist.''))"

text \<open>\<^verbatim>\<open>Object.entries(this.tableTop).flat()\<close>: each key followed by its value.\<close>

definition getTableTopDeck :: "game \<Rightarrow> jstring option list" where
  "getTableTopDeck g = concat (map (\<lambda>(k, v). [Some k, v]) (tableTop g))"

text \<open>
  \<^verbatim>\<open>items.map(item => parseCard(item)[0])\<close>: the first TypeError of \<open>parseCard\<close> ends
  the traversal.
\<close>

fun mapLabels :: "jstring option list \<Rightarrow> error + jstring option list" where
  "mapLabels [] = Inr []"
| "mapLabels (item # items) =
     (case parseCard item of Inl e \<Rightarrow> Inl e
      | Inr parts \<Rightarrow>
         (case mapLabels items of Inl e \<Rightarrow> Inl e
          | Inr labels \<Rightarrow> Inr (index parts 0 # labels)))"

definition toVal :: "jstring option \<Rightarrow> jsval" where
  "toVal v = (case v of None \<Rightarrow> Null | Some s \<Rightarrow> Str s)"

text \<open>
  \<^verbatim>\<open>Object.values(this.tableTop).reduce((item) => item !== null).length\<close>: the callback
  reads the accumulator only.
\<close>

definition coveredCards :: "game \<Rightarrow> error + int option" where
  "coveredCards g =
     (case reduce (\<lambda>item cur. Bool (item \<noteq> Null)) (map (toVal \<circ> snd) (tableTop g)) of
        Inl e \<Rightarrow> Inl e
      | Inr r \<Rightarrow> lengthOf r)"

text \<open>
  The checks of \<open>addCardToTableTop\<close>, in the order of the source; none of them writes.
  The result is the player \<^verbatim>\<open>this.players[from]\<close>.
\<close>

definition validate :: "jstring \<Rightarrow> jstring \<Rightarrow> game \<Rightarrow> error + player" where
  "validate from c g =
     (if \<not> (length (tableTop g) < 6) then Inl (Error ''Player deck already full.'')
      else
       (case lookupPlayer (players g) from of Inl e \<Rightarrow> Inl e
        | Inr player \<Rightarrow>
       (case coveredCards g of Inl e \<Rightarrow> Inl e
        | Inr covered \<Rightarrow>
       (case lengthOf (player.deck player) of Inl e \<Rightarrow> Inl e
        | Inr deckLength \<Rightarrow>
          if exceeds (length (tableTop g)) covered deckLength
          then Inl (Error ''Player doesn't have enough cards to cover attack.'')
          else
       (case parseCard (Some c) of Inl e \<Rightarrow> Inl e
        | Inr parts \<Rightarrow>
          if \<not> inArray (index parts 0) CardLabels \<or> \<not> inArray (index parts 1) CardSuits
          then Inl (Error ''Invalid card'')
          else
       (case includesCard (player.deck player) c of Inl e \<Rightarrow> Inl e
        | Inr held \<Rightarrow>
          if \<not> held then Inl (Error ''Player doesn't hold current card'')
          else
       (case mapLabels (getTableTopDeck g) of Inl e \<Rightarrow> Inl e
        | Inr labels \<Rightarrow>
          if index parts 0 \<notin> set labels
          then Inl (Error ''Card numerical value isn't present on the table top.'')
          else Inr player)))))))"

text \<open>\<^verbatim>\<open>player.deck.reduce((item) => item !== card)\<close>; only an array has \<^verbatim>\<open>reduce\<close>.\<close>

definition reduceDeck :: "jsval \<Rightarrow> jstring \<Rightarrow> error + jsval" where
  "reduceDeck d c =
     (case d of
        Arr xs \<Rightarrow> reduce (\<lambda>item cur. Bool (item \<noteq> Str c)) (map Str xs)
      | _ \<Rightarrow> Inl TypeError)"

text \<open>
  \<open>addCardToTableTop from card\<close> returns the exception it raised (\<open>None\<close> when it returned
  normally) together with the state it left behind. The two writes are the last two
  statements: the table top first, then the player's deck.
\<close>

definition addCardToTableTop :: "jstring \<Rightarrow> jstring \<Rightarrow> game \<Rightarrow> error option \<times> game" where
  "addCardToTableTop from c g =
     (case validate from c g of
        Inl e \<Rightarrow> (Some e, g)
      | Inr player \<Rightarrow>
         (let g1 = g\<lparr>tableTop := AList.update c None (tableTop g)\<rparr> in
          case reduceDeck (player.deck player) c of
            Inl e \<Rightarrow> (Some e, g1)
          | Inr d \<Rightarrow>
             (None, g1\<lparr>players := AList.update from (player\<lparr>player.deck := d\<rparr>) (players g1)\<rparr>)))"

section \<open>The other operations\<close>

text \<open>
  \<open>coverCardOnTableTop\<close>, \<open>addHistoryNode\<close>, \<open>moveTableTopTo\<close>, \<open>voidTableTop\<close> and
  \<open>serialize\<close> have empty bodies: they return normally and write nothing.
\<close>

definition coverCardOnTableTop :: "jstring \<Rightarrow> jstring \<Rightarrow> game \<Rightarrow> error option \<times> game" where
  "coverCardOnTableTop c coveringCard g = (None, g)"

definition addHistoryNode :: "game \<Rightarrow> error option \<times> game" where
  "addHistoryNode g = (None, g)"

definition moveTableTopTo :: "jstring \<Rightarrow> game \<Rightarrow> error option \<times> game" where
  "moveTableTopTo to g = (None, g)"

definition voidTableTop :: "game \<Rightarrow> error option \<times> game" where
  "voidTableTop g = (None, g)"

definition serialize :: "game \<Rightarrow> error option \<times> game" where
  "serialize g = (None, g)"

section \<open>Error kinds, card accounting and reachable states\<close>


abbreviation UnknownPlayer :: error where
  "UnknownPlayer \<equiv> Error ''Player doesn't exist.''"

abbreviation InsufficientDefenderCards :: error where
  "InsufficientDefenderCards \<equiv> Error ''Player doesn't have enough cards to cover attack.''"

abbreviation InvalidCard :: error where
  "InvalidCard \<equiv> Error ''Invalid card''"

abbreviation CardNotHeld :: error where
  "CardNotHeld \<equiv> Error ''Player doesn't hold current card''"

abbreviation RankNotOnTable :: error where
  "RankNotOnTable \<equiv> Error ''Card numerical value isn't present on the table top.''"

text \<open>The cards a value of \<^verbatim>\<open>player.deck\<close> holds: a boolean or a string is no hand of cards.\<close>

fun cardsHeld :: "jsval \<Rightarrow> jstring list" where
  "cardsHeld (Arr xs) = xs"
| "cardsHeld _ = []"

definition handCards :: "(jstring \<times> player) list \<Rightarrow> jstring multiset" where
  "handCards ps = sum_list (map (\<lambda>(pid, p). mset (cardsHeld (player.deck p))) ps)"

text \<open>The cards lying on the table top: every attacking card and every covering card.\<close>

definition tableTopCards :: "game \<Rightarrow> jstring list" where
  "tableTopCards g = concat (map (\<lambda>(k, v). k # (case v of None \<Rightarrow> [] | Some s \<Rightarrow> [s])) (tableTop g))"

text \<open>
  All cards of a game: the stock, the hands and the table top. The engine has no discard
  pile (\<open>voidTableTop\<close> is empty), so nothing is ever discarded.
\<close>

definition allCards :: "game \<Rightarrow> jstring multiset" where
  "allCards g = mset (deck g) + handCards (players g) + mset (tableTopCards g)"

text \<open>
  The states of a game object: the constructor returned it, with \<^verbatim>\<open>Math.random\<close> in
  \<open>[0, 1)\<close>, and then any of the methods ran, whether it returned or threw.
\<close>

inductive reachable :: "game \<Rightarrow> bool" where
  constructed:
    "\<forall>k. 0 \<le> random k \<and> random k < 1 \<Longrightarrow> new_Game random nanoid n = Inr g \<Longrightarrow> reachable g"
| addCard:
    "reachable g \<Longrightarrow> addCardToTableTop from c g = (r, g') \<Longrightarrow> reachable g'"
| coverCard:
    "reachable g \<Longrightarrow> coverCardOnTableTop c coveringCard g = (r, g') \<Longrightarrow> reachable g'"
| historyNode:
    "reachable g \<Longrightarrow> addHistoryNode g = (r, g') \<Longrightarrow> reachable g'"
| moveTableTop:
    "reachable g \<Longrightarrow> moveTableTopTo to g = (r, g') \<Longrightarrow> reachable g'"
| voidTable:
    "reachable g \<Longrightarrow> voidTableTop g = (r, g') \<Longrightarrow> reachable g'"
| serialized:
    "reachable g \<Longrightarrow> serialize g = (r, g') \<Longrightarrow> reachable g'"

text \<open>
  The rank and the suit of a card string, as the engine reads them:
  \<^verbatim>\<open>parseCard(card)[0]\<close> and \<^verbatim>\<open>parseCard(card)[1]\<close>.
\<close>

definition labelOf :: "jstring \<Rightarrow> jstring option" where
  "labelOf s = index (splitOf [] s) 0"

definition suitOf :: "jstring \<Rightarrow> jstring option" where
  "suitOf s = index (splitOf [] s) 1"

text \<open>The rank of the played card is the rank of some card lying on the table top.\<close>

definition rankOnTable :: "jstring \<Rightarrow> game \<Rightarrow> bool" where
  "rankOnTable c g \<longleftrightarrow> labelOf c \<in> set (map labelOf (tableTopCards g))"

text \<open>
  The rule of the specification for a legal cover, in its words: the covering card has the
  suit of the attacked card and a strictly higher rank (the position of the label in
  \<open>CardLabels\<close>), or it is a trump and the attacked card is not. Nothing in the source
  computes it.
\<close>

fun indexOf :: "'a list \<Rightarrow> 'a \<Rightarrow> nat" where
  "indexOf [] x = 0"
| "indexOf (y # ys) x = (if x = y then 0 else Suc (indexOf ys x))"

definition rankOf :: "jstring \<Rightarrow> nat" where
  "rankOf s = (case labelOf s of None \<Rightarrow> 0 | Some l \<Rightarrow> indexOf CardLabels l)"

definition spec_beats :: "jstring option \<Rightarrow> jstring \<Rightarrow> jstring \<Rightarrow> bool" where
  "spec_beats trump attacked covering \<longleftrightarrow>
     (suitOf covering = suitOf attacked \<and> rankOf attacked < rankOf covering)
     \<or> (suitOf covering = trump \<and> suitOf attacked \<noteq> trump)"

section \<open>Example states\<close>

definition hearts :: jstring where "hearts = [0x2661]"
definition diamonds :: jstring where "diamonds = [0x2662]"
definition clubs :: jstring where "clubs = [0x2663]"
definition spades :: jstring where "spades = [0x2664]"

definition holding :: "jstring list \<Rightarrow> bool \<Rightarrow> player" where
  "holding xs d = \<lparr>player.deck = Arr xs, startsFirst = \<not> d, defending = d\<rparr>"

text \<open>
  One attack on the table, covered; the attacker \<^verbatim>\<open>p1\<close> holds two cards, the defender
  \<^verbatim>\<open>p2\<close> one.
\<close>

definition coveredTable :: game where
  "coveredTable =
     \<lparr>history = [],
      players =
        [(u16 ''p1'', holding [cardString (u16 ''7'') hearts, cardString (u16 ''9'') clubs] False),
         (u16 ''p2'', holding [cardString (u16 ''10'') spades] True)],
      tableTop = [(cardString (u16 ''7'') diamonds, Some (cardString (u16 ''8'') diamonds))],
      deck = [],
      trumpSuite = Some clubs\<rparr>"

text \<open>
  Scenario D of the specification: one uncovered attack on the table, the defender \<^verbatim>\<open>p2\<close>
  holds two cards; and the same with two uncovered attacks.
\<close>

definition scenarioD :: game where
  "scenarioD =
     \<lparr>history = [],
      players =
        [(u16 ''p1'', holding [cardString (u16 ''7'') diamonds, cardString (u16 ''7'') clubs,
                              cardString (u16 ''9'') clubs] False),
         (u16 ''p2'', holding [cardString (u16 ''8'') hearts, cardString (u16 ''10'') spades] True)],
      tableTop = [(cardString (u16 ''7'') hearts, None)],
      deck = [],
      trumpSuite = Some clubs\<rparr>"

definition scenarioD2 :: game where
  "scenarioD2 =
     \<lparr>history = [],
      players =
        [(u16 ''p1'', holding [cardString (u16 ''7'') clubs, cardString (u16 ''9'') clubs] False),
         (u16 ''p2'', holding [cardString (u16 ''8'') hearts, cardString (u16 ''10'') spades] True)],
      tableTop = [(cardString (u16 ''7'') hearts, None), (cardString (u16 ''7'') diamonds, None)],
      deck = [],
      trumpSuite = Some clubs\<rparr>"


text \<open>
  Scenario B of the specification: the seven of hearts lies uncovered, the defender
  \<^verbatim>\<open>p2\<close> holds the six and the nine of hearts; clubs are trumps.
\<close>

definition scenarioB :: game where
  "scenarioB =
     \<lparr>history = [],
      players =
        [(u16 ''p1'', holding [cardString (u16 ''9'') clubs] False),
         (u16 ''p2'', holding [cardString (u16 ''6'') hearts, cardString (u16 ''9'') hearts] True)],
      tableTop = [(cardString (u16 ''7'') hearts, None)],
      deck = [],
      trumpSuite = Some clubs\<rparr>"

section \<open>Unfolding the definitions on concrete states\<close>

lemmas card_defs = u16_def sepOf_def cardString_def hearts_def diamonds_def clubs_def spades_def
  CardLabels_def CardSuits_def holding_def

lemmas engine_defs = addCardToTableTop_def validate_def lookupPlayer_def coveredCards_def
  getTableTopDeck_def toVal_def reduceDeck_def index_def objectPrototype_def

declare createPlayers.simps [simp del]

section \<open>Shuffling\<close>

lemma length_shuffleLoop: "length (shuffleLoop random calls n xs) = length xs"
  by (induction n arbitrary: calls xs) (simp_all add: Let_def)

lemma length_shuffleDeck: "length (shuffleDeck random xs) = length xs"
  by (simp add: shuffleDeck_def length_shuffleLoop)

lemma randomIndex_less:
  assumes "0 \<le> r" "r < 1"
  shows "nat \<lfloor>r * of_nat (Suc n)\<rfloor> < Suc n"
proof -
  have "r * of_nat (Suc n) < of_nat (Suc n)"
    using assms by (simp add: mult_less_cancel_right2 del: of_nat_Suc)
  then have "\<lfloor>r * of_nat (Suc n)\<rfloor> < int (Suc n)"
    by (simp add: floor_less_iff del: of_nat_Suc)
  then show ?thesis by linarith
qed

lemma mset_swap_step:
  assumes "i < length xs" "j < length xs"
  shows "mset ((xs[i := xs ! j])[j := xs ! i]) = mset xs"
  using assms by (metis mset_swap)

lemma mset_shuffleLoop:
  assumes "\<forall>k. 0 \<le> random k \<and> random k < 1"
  shows "n \<le> length xs \<Longrightarrow> mset (shuffleLoop random calls n xs) = mset xs"
proof (induction n arbitrary: calls xs)
  case 0
  then show ?case by simp
next
  case (Suc n)
  let ?j = "nat \<lfloor>random calls * of_nat (Suc n)\<rfloor>"
  have j: "?j < Suc n" using assms randomIndex_less by blast
  let ?ys = "(xs[n := xs ! ?j])[?j := xs ! n]"
  have len: "n \<le> length ?ys" using Suc.prems by simp
  have "mset ?ys = mset xs"
    using mset_swap_step[of n xs ?j] Suc.prems j by simp
  moreover have "shuffleLoop random calls (Suc n) xs = shuffleLoop random (Suc calls) n ?ys"
    by (simp add: Let_def)
  ultimately show ?case using Suc.IH[OF len] by simp
qed

text \<open>
  Claim C10. Whatever values in \<open>[0, 1)\<close> \<^verbatim>\<open>Math.random\<close> returns, \<open>shuffleDeck\<close> returns a
  list of the length of its argument with the same elements in the same multiplicities:
  no card is lost, duplicated or invented.
\<close>

theorem shuffleDeck_permutation:
  "\<forall>k. 0 \<le> random k \<and> random k < 1 \<Longrightarrow>
     length (shuffleDeck random xs) = length xs \<and> mset (shuffleDeck random xs) = mset xs"
  by (simp add: shuffleDeck_def length_shuffleLoop mset_shuffleLoop)

theorem shuffleDeck_permutation_witness:
  "shuffleDeck (\<lambda>k. 1 / 2) [1, 2, 3 :: nat] = [1, 3, 2]
   \<and> length (shuffleDeck (\<lambda>k. 1 / 2) [1, 2, 3 :: nat]) = 3
   \<and> mset (shuffleDeck (\<lambda>k. 1 / 2) [1, 2, 3 :: nat]) = mset [1, 2, 3]"
proof -
  have r: "\<forall>k::nat. (0::rat) \<le> 1 / 2 \<and> (1 / 2 :: rat) < 1" by simp
  have "shuffleDeck (\<lambda>k. 1 / 2) [1, 2, 3 :: nat] = [1, 3, 2]"
    by code_simp
  with shuffleDeck_permutation[OF r, of "[1, 2, 3 :: nat]"] show ?thesis by simp
qed

section \<open>Parsing card strings\<close>

lemma sepOf_units: "sepOf = [0x20, 0x6F, 0x66, 0x20]"
  by (simp add: sepOf_def u16_def)

lemma splitOf_without_sep: "\<not> includesStr s sepOf \<Longrightarrow> splitOf acc s = [acc @ s]"
proof (induction s arbitrary: acc)
  case Nil
  then show ?case by simp
next
  case (Cons c cs)
  have "length sepOf = 4" by (simp add: sepOf_units)
  with Cons.prems have "take 4 (c # cs) \<noteq> sepOf" and "\<not> includesStr cs sepOf"
    by auto
  with Cons.IH[of "acc @ [c]"] show ?case by simp
qed

text \<open>\<open>includesStr\<close> is occurrence as a contiguous substring.\<close>

lemma includesStr_iff: "includesStr s sub \<longleftrightarrow> (\<exists>p q. s = p @ sub @ q)"
proof (induction s)
  case Nil
  then show ?case by auto
next
  case (Cons c cs)
  show ?case
  proof
    assume "includesStr (c # cs) sub"
    then consider "take (length sub) (c # cs) = sub" | "includesStr cs sub" by auto
    then show "\<exists>p q. c # cs = p @ sub @ q"
    proof cases
      case 1
      then have "c # cs = [] @ sub @ drop (length sub) (c # cs)"
        by (metis append_Nil append_take_drop_id)
      then show ?thesis by blast
    next
      case 2
      then obtain p q where "cs = p @ sub @ q" using Cons.IH by blast
      then have "c # cs = (c # p) @ sub @ q" by simp
      then show ?thesis by blast
    qed
  next
    assume "\<exists>p q. c # cs = p @ sub @ q"
    then obtain p q where pq: "c # cs = p @ sub @ q" by blast
    show "includesStr (c # cs) sub"
    proof (cases p)
      case Nil
      with pq have "take (length sub) (c # cs) = sub" by simp
      then show ?thesis by simp
    next
      case (Cons a p')
      with pq have "cs = p' @ sub @ q" by simp
      then have "includesStr cs sub" using Cons.IH by blast
      then show ?thesis by simp
    qed
  qed
qed

lemma not_includes_no_space: "0x20 \<notin> set s \<Longrightarrow> \<not> includesStr s sepOf"
  by (auto simp: includesStr_iff sepOf_units)

lemma splitOf_at_sep: "0x20 \<notin> set l \<Longrightarrow> splitOf acc (l @ sepOf @ r) = (acc @ l) # splitOf [] r"
proof (induction l arbitrary: acc)
  case Nil
  then show ?case by (simp add: sepOf_units)
next
  case (Cons x l)
  then have "x \<noteq> 0x20" by auto
  then have "take 4 (x # l @ sepOf @ r) \<noteq> sepOf"
    by (auto simp: sepOf_units take_Cons')
  with Cons.IH[of "acc @ [x]"] Cons.prems show ?case by simp
qed

lemma CardLabels_no_space: "l \<in> set CardLabels \<Longrightarrow> 0x20 \<notin> set l"
  by (auto simp: CardLabels_def u16_def)

lemma CardSuits_no_space: "s \<in> set CardSuits \<Longrightarrow> 0x20 \<notin> set s"
  by (auto simp: CardSuits_def)

lemma splitOf_cardString:
  assumes "l \<in> set CardLabels" "s \<in> set CardSuits"
  shows "splitOf [] (cardString l s) = [l, s]"
  using splitOf_at_sep[OF CardLabels_no_space[OF assms(1)], of "[]" s]
    splitOf_without_sep[OF not_includes_no_space[OF CardSuits_no_space[OF assms(2)]], of "[]"]
  by (simp add: cardString_def)

lemma set_generateCardDeck:
  "set generateCardDeck = {cardString l s | l s. l \<in> set CardLabels \<and> s \<in> set CardSuits}"
  by (auto simp: generateCardDeck_def)

lemma length_generateCardDeck: "length generateCardDeck = 52"
  by (simp add: generateCardDeck_def CardLabels_def CardSuits_def)

lemma distinct_generateCardDeck: "distinct generateCardDeck"
  by (simp add: generateCardDeck_def CardLabels_def CardSuits_def cardString_def sepOf_def u16_def)

lemma count_generateCardDeck:
  "count (mset generateCardDeck) c = (if c \<in> set generateCardDeck then 1 else 0)"
  using distinct_generateCardDeck by (simp add: distinct_count_atmost_1)

text \<open>
  Claim C8, as stated, fails: \<open>parseCard\<close> has no failure for a string. On the string
  \<^verbatim>\<open>"7H"\<close>, which does not contain \<^verbatim>\<open>" of "\<close>, it returns the array \<^verbatim>\<open>["7H"]\<close>.
\<close>

theorem parseCard_no_failure_counterexample:
  "\<not> includesStr (u16 ''7H'') sepOf \<and> parseCard (Some (u16 ''7H'')) = Inr [u16 ''7H'']"
  by (simp add: u16_def sepOf_def)

text \<open>
  Claim C8, amended. For every string that does not contain the separator \<^verbatim>\<open>" of "\<close>,
  \<open>parseCard\<close> returns normally the array of one element holding the string unchanged, so
  that the suit component \<^verbatim>\<open>parseCard(card)[1]\<close> is \<^verbatim>\<open>undefined\<close>.
\<close>

theorem parseCard_without_separator:
  "\<not> includesStr s sepOf \<Longrightarrow>
     parseCard (Some s) = Inr [s] \<and> suitOf s = None"
  by (simp add: splitOf_without_sep suitOf_def index_def)

theorem parseCard_without_separator_witness:
  "\<not> includesStr (u16 ''Queen'') sepOf
   \<and> parseCard (Some (u16 ''Queen'')) = Inr [u16 ''Queen''] \<and> suitOf (u16 ''Queen'') = None"
proof -
  have h: "\<not> includesStr (u16 ''Queen'') sepOf" by (simp add: u16_def sepOf_def)
  with parseCard_without_separator[OF h] show ?thesis by simp
qed

text \<open>
  Claim C9. The cards of \<open>generateCardDeck\<close> are exactly the strings \<open>cardString label suit\<close>
  of a label of \<open>CardLabels\<close> and a suit of \<open>CardSuits\<close>, and \<open>parseCard\<close> applied to such a
  string returns exactly that label and that suit.
\<close>

theorem parseCard_roundtrip:
  "(label \<in> set CardLabels \<and> suit \<in> set CardSuits \<longrightarrow>
      cardString label suit \<in> set generateCardDeck
      \<and> parseCard (Some (cardString label suit)) = Inr [label, suit])
   \<and> (c \<in> set generateCardDeck \<longrightarrow>
      (\<exists>l \<in> set CardLabels. \<exists>s \<in> set CardSuits.
         c = cardString l s \<and> parseCard (Some c) = Inr [l, s]))"
  by (auto simp: set_generateCardDeck splitOf_cardString)

theorem parseCard_roundtrip_witness:
  "cardString (u16 ''Queen'') spades \<in> set generateCardDeck
   \<and> parseCard (Some (cardString (u16 ''Queen'') spades)) = Inr [u16 ''Queen'', spades]"
proof -
  have "u16 ''Queen'' \<in> set CardLabels" by (simp add: CardLabels_def)
  moreover have "spades \<in> set CardSuits" by (simp add: CardSuits_def spades_def)
  ultimately show ?thesis
    using parseCard_roundtrip[of "u16 ''Queen''" spades] by blast
qed

section \<open>Construction\<close>

lemma handCards_Nil [simp]: "handCards [] = {#}"
  by (simp add: handCards_def)

lemma handCards_Cons [simp]:
  "handCards ((pid, p) # ps) = mset (cardsHeld (player.deck p)) + handCards ps"
  by (simp add: handCards_def)

lemma handCards_empty:
  "\<forall>p \<in> snd ` set ps. cardsHeld (player.deck p) = [] \<Longrightarrow> handCards ps = {#}"
  by (induction ps) auto

lemma createPlayers_step:
  "of_nat i < n \<Longrightarrow>
   createPlayers nanoid n i ps = createPlayers nanoid n (Suc i) (AList.update (nanoid i) newPlayer ps)"
  by (subst createPlayers.simps) (simp only: if_True)

lemma createPlayers_stop: "\<not> of_nat i < n \<Longrightarrow> createPlayers nanoid n i ps = ps"
  by (subst createPlayers.simps) (simp only: if_False)

lemma update_all:
  assumes "P v" "\<forall>p \<in> snd ` set ps. P p"
  shows "\<forall>p \<in> snd ` set (AList.update k v ps). P p"
  using assms by (induction ps) auto

text \<open>Every player the loop leaves behind is a fresh one or was there before.\<close>

lemma createPlayers_all:
  "P newPlayer \<Longrightarrow> \<forall>p \<in> snd ` set ps. P p \<Longrightarrow>
   \<forall>p \<in> snd ` set (createPlayers nanoid n i ps). P p"
proof (induction nanoid n i ps rule: createPlayers.induct)
  case (1 nanoid n i ps)
  show ?case
  proof (cases "of_nat i < n")
    case True
    from "1.IH"[OF True "1.prems"(1) update_all[of P, OF "1.prems"]] show ?thesis
      unfolding createPlayers_step[OF True] .
  next
    case False
    from "1.prems"(2) show ?thesis unfolding createPlayers_stop[OF False] .
  qed
qed

lemma push_cards:
  "push c p = Inr p' \<Longrightarrow>
   mset (cardsHeld (player.deck p')) = {#c#} + mset (cardsHeld (player.deck p))"
  by (cases "player.deck p") auto

text \<open>Dealing moves cards from the stock to the hands and nowhere else.\<close>

lemma dealRound_cards:
  "dealRound ps stock = Inr (ps', stock') \<Longrightarrow>
   handCards ps' + mset stock' = handCards ps + mset stock"
proof (induction ps stock arbitrary: ps' stock' rule: dealRound.induct)
  case (1 stock)
  then show ?case by simp
next
  case (2 pid p ps)
  then show ?case by simp
next
  case (3 pid p ps c stock)
  from "3.prems" obtain p' qs where p': "push c p = Inr p'"
    and rest: "dealRound ps stock = Inr (qs, stock')" and ps': "ps' = (pid, p') # qs"
    by (auto split: sum.splits simp del: push.simps)
  from "3.IH"[OF p' rest] push_cards[OF p'] ps' show ?case by (simp add: ac_simps)
qed

lemma distribute_cards:
  "distribute n ps stock = Inr (ps', stock') \<Longrightarrow>
   handCards ps' + mset stock' = handCards ps + mset stock"
proof (induction n arbitrary: ps stock)
  case 0
  then show ?case by simp
next
  case (Suc n)
  from Suc.prems obtain qs s where d: "dealRound ps stock = Inr (qs, s)"
    and r: "distribute n qs s = Inr (ps', stock')"
    by (auto split: sum.splits)
  from Suc.IH[OF r] dealRound_cards[OF d] show ?case by simp
qed

lemma new_Game_InrD:
  assumes "new_Game random nanoid n = Inr g"
  shows "\<exists>stock. distribute DECK_SIZE (createPlayers nanoid n 0 []) (shuffleDeck random generateCardDeck)
            = Inr (players g, stock) \<and> mset (deck g) = mset stock"
    and "tableTop g = []" and "history g = []"
proof -
  from assms obtain ps stock parts where
    d: "distribute DECK_SIZE (createPlayers nanoid n 0 []) (shuffleDeck random generateCardDeck) = Inr (ps, stock)"
    and g: "g = \<lparr>history = [], players = ps, tableTop = [],
                 deck = (case stock of [] \<Rightarrow> [] | c # rest \<Rightarrow> rest @ [c]),
                 trumpSuite = index parts 1\<rparr>"
    unfolding new_Game_def Let_def
    by (auto split: if_splits sum.splits)
  have "mset (deck g) = mset stock" using g by (cases stock) auto
  with d g show "\<exists>stock. distribute DECK_SIZE (createPlayers nanoid n 0 []) (shuffleDeck random generateCardDeck)
            = Inr (players g, stock) \<and> mset (deck g) = mset stock" by auto
  from g show "tableTop g = []" and "history g = []" by auto
qed

text \<open>A game the constructor returns holds the 52 cards, in the stock and the hands.\<close>

lemma new_Game_conserved:
  assumes r: "\<forall>k. 0 \<le> random k \<and> random k < 1" and g: "new_Game random nanoid n = Inr g"
  shows "allCards g = mset generateCardDeck"
proof -
  from new_Game_InrD(1)[OF g] obtain stock where
    d: "distribute DECK_SIZE (createPlayers nanoid n 0 []) (shuffleDeck random generateCardDeck)
          = Inr (players g, stock)"
    and s: "mset (deck g) = mset stock" by blast
  have "\<forall>p \<in> snd ` set (createPlayers nanoid n 0 []). cardsHeld (player.deck p) = []"
    by (rule createPlayers_all) (simp_all add: newPlayer_def)
  then have "handCards (createPlayers nanoid n 0 []) = {#}"
    by (rule handCards_empty)
  moreover have "mset (shuffleDeck random generateCardDeck) = mset generateCardDeck"
    unfolding shuffleDeck_def by (rule mset_shuffleLoop[OF r]) simp
  ultimately have "handCards (players g) + mset stock = mset generateCardDeck"
    using distribute_cards[OF d] by simp
  moreover have "tableTopCards g = []"
    using new_Game_InrD(2)[OF g] by (simp add: tableTopCards_def)
  ultimately show ?thesis using s by (simp add: allCards_def ac_simps)
qed

lemma distribute_Nil: "distribute n [] stock = Inr ([], stock)"
  by (induction n) simp_all

lemma isInteger_of_int: "isInteger (of_int k)"
  by (simp add: isInteger_def)

text \<open>An integer that is zero or negative passes both checks and creates no player.\<close>

lemma new_Game_no_players:
  assumes "isInteger n" "n \<le> 0"
  shows "\<exists>g. new_Game random nanoid n = Inr g \<and> players g = []"
proof -
  let ?stock = "shuffleDeck random generateCardDeck"
  have "\<not> of_nat 0 < n" using assms(2) by simp
  then have "createPlayers nanoid n 0 [] = []" by (rule createPlayers_stop)
  moreover have "length ?stock = 52"
    by (simp add: length_shuffleDeck length_generateCardDeck)
  then have "index ?stock 0 = Some (?stock ! 0)" by (simp add: index_def)
  ultimately show ?thesis using assms
    by (simp add: new_Game_def Let_def distribute_Nil)
qed

lemma new_Game_too_many:
  "8 < n \<Longrightarrow>
   new_Game random nanoid n = Inl (Error ''Number of players cannot be greater than eight.'')"
  by (simp add: new_Game_def)

lemma new_Game_negative_fraction:
  "\<not> isInteger n \<Longrightarrow> n < 0 \<Longrightarrow>
   new_Game random nanoid n = Inl (Error ''Number of players must be a positive integer.'')"
  by (simp add: new_Game_def)

lemma dealRound_total:
  assumes "length ps \<le> length stock" "\<forall>p \<in> snd ` set ps. \<exists>h. player.deck p = Arr h"
  shows "\<exists>ps' stock'. dealRound ps stock = Inr (ps', stock') \<and> map fst ps' = map fst ps
           \<and> length stock' = length stock - length ps
           \<and> (\<forall>p \<in> snd ` set ps'. \<exists>h. player.deck p = Arr h)"
  using assms
proof (induction ps arbitrary: stock)
  case Nil
  then show ?case by simp
next
  case (Cons a ps)
  obtain pid p where a: "a = (pid, p)" by (cases a)
  from Cons.prems(1) obtain c rest where stock: "stock = c # rest" by (cases stock) auto
  from Cons.prems(2) a obtain h where h: "player.deck p = Arr h" by auto
  from Cons.prems stock have "length ps \<le> length rest"
    and "\<forall>p \<in> snd ` set ps. \<exists>h. player.deck p = Arr h" by auto
  from Cons.IH[OF this] obtain ps' stock' where
    r: "dealRound ps rest = Inr (ps', stock')" "map fst ps' = map fst ps"
       "length stock' = length rest - length ps"
       "\<forall>p \<in> snd ` set ps'. \<exists>h. player.deck p = Arr h" by blast
  with a stock h show ?case by simp
qed

lemma distribute_total:
  assumes "n * length ps \<le> length stock" "\<forall>p \<in> snd ` set ps. \<exists>h. player.deck p = Arr h"
  shows "\<exists>ps' stock'. distribute n ps stock = Inr (ps', stock') \<and> map fst ps' = map fst ps
           \<and> length stock' = length stock - n * length ps"
  using assms
proof (induction n arbitrary: ps stock)
  case 0
  then show ?case by simp
next
  case (Suc n)
  from Suc.prems(1) have le: "length ps \<le> length stock" by simp
  from dealRound_total[OF le Suc.prems(2)] obtain qs s where
    d: "dealRound ps stock = Inr (qs, s)" "map fst qs = map fst ps"
       "length s = length stock - length ps"
       "\<forall>p \<in> snd ` set qs. \<exists>h. player.deck p = Arr h" by blast
  from d(2) have len: "length qs = length ps" by (metis length_map)
  with d(3) Suc.prems(1) have "n * length qs \<le> length s" by simp
  from Suc.IH[OF this d(4)] obtain ps' stock' where
    r: "distribute n qs s = Inr (ps', stock')" "map fst ps' = map fst qs"
       "length stock' = length s - n * length qs" by blast
  with d len show ?case by simp
qed

lemma stock_left:
  fixes a b k :: nat
  shows "a = b - 6 * k \<Longrightarrow> k \<le> 8 \<Longrightarrow> b = 52 \<Longrightarrow> 0 < a"
  by simp

lemma count_step:
  fixes i m a b x :: nat
  shows "i < m \<Longrightarrow> a \<le> Suc b \<Longrightarrow> x \<le> a + (m - Suc i) \<Longrightarrow> x \<le> b + (m - i)"
  by arith

lemma length_createPlayers:
  "length (createPlayers nanoid n i ps) \<le> length ps + (nat \<lceil>n\<rceil> - i)"
proof (induction nanoid n i ps rule: createPlayers.induct)
  case (1 nanoid n i ps)
  show ?case
  proof (cases "of_nat i < n")
    case True
    then have "i < nat \<lceil>n\<rceil>" by linarith
    moreover have "length (AList.update (nanoid i) newPlayer ps) \<le> Suc (length ps)"
      using arg_cong[OF AList.update_keys[of "nanoid i" newPlayer ps], of length]
      by (simp split: if_splits)
    ultimately show ?thesis using "1.IH"[OF True]
      unfolding createPlayers_step[OF True] by (rule count_step)
  next
    case False
    show ?thesis unfolding createPlayers_stop[OF False] by simp
  qed
qed

text \<open>
  Whenever the two checks of the constructor pass there are at most eight players, the
  stock lasts for the six rounds of dealing and the constructor returns a game.
\<close>

lemma new_Game_succeeds:
  assumes "n \<le> 8" "isInteger n \<or> 0 \<le> n"
  shows "\<exists>g. new_Game random nanoid n = Inr g
           \<and> map fst (players g) = map fst (createPlayers nanoid n 0 [])
           \<and> length (deck g) = 52 - 6 * length (players g)"
proof -
  let ?ps = "createPlayers nanoid n 0 []"
  let ?stock = "shuffleDeck random generateCardDeck"
  have "nat \<lceil>n\<rceil> \<le> 8" using assms(1) by linarith
  with length_createPlayers[of nanoid n 0 "[]"] have len: "length ?ps \<le> 8" by simp
  have stock: "length ?stock = 52" by (simp add: length_shuffleDeck length_generateCardDeck)
  have arr: "\<forall>p \<in> snd ` set ?ps. \<exists>h. player.deck p = Arr h"
    by (rule createPlayers_all) (simp_all add: newPlayer_def)
  have "DECK_SIZE * length ?ps \<le> length ?stock" using len stock by (simp add: DECK_SIZE_def)
  from distribute_total[OF this arr] obtain ps' stock' where
    d: "distribute DECK_SIZE ?ps ?stock = Inr (ps', stock')" "map fst ps' = map fst ?ps"
       "length stock' = length ?stock - DECK_SIZE * length ?ps" by blast
  from d(2) have len': "length ps' = length ?ps" by (metis length_map)
  have pos: "0 < length stock'"
    by (rule stock_left[OF d(3)[unfolded DECK_SIZE_def] len stock])
  then obtain c rest where cr: "stock' = c # rest"
    by (metis length_greater_0_conv neq_Nil_conv)
  then have idx: "index stock' 0 = Some c" by (simp add: index_def)
  have nofail: "\<not> (\<not> isInteger n \<and> n < 0)" using assms(2) by auto
  have g: "new_Game random nanoid n =
      Inr \<lparr>history = [], players = ps', tableTop = [], deck = rest @ [c],
           trumpSuite = index (splitOf [] c) 1\<rparr>"
    using nofail assms(1) d(1) idx cr by (simp add: new_Game_def Let_def)
  have "length (rest @ [c]) = length stock'" using cr by simp
  also have "\<dots> = 52 - 6 * length ps'"
    unfolding d(3) stock len' DECK_SIZE_def ..
  finally have "length (rest @ [c]) = 52 - 6 * length ps'" .
  with g d(2) show ?thesis by simp
qed

lemma update_fresh: "k \<notin> fst ` set ps \<Longrightarrow> AList.update k v ps = ps @ [(k, v)]"
  by (induction ps) auto

lemma createPlayers_keys:
  "distinct (map fst ps @ map nanoid [i..<nat \<lceil>n\<rceil>]) \<Longrightarrow>
   map fst (createPlayers nanoid n i ps) = map fst ps @ map nanoid [i..<nat \<lceil>n\<rceil>]"
proof (induction nanoid n i ps rule: createPlayers.induct)
  case (1 nanoid n i ps)
  show ?case
  proof (cases "of_nat i < n")
    case True
    then have lt: "i < nat \<lceil>n\<rceil>" by linarith
    then have up: "[i..<nat \<lceil>n\<rceil>] = i # [Suc i..<nat \<lceil>n\<rceil>]" by (simp add: upt_conv_Cons)
    with "1.prems" have fresh: "nanoid i \<notin> fst ` set ps" by auto
    have u: "AList.update (nanoid i) newPlayer ps = ps @ [(nanoid i, newPlayer)]"
      by (rule update_fresh[OF fresh])
    have "distinct (map fst (AList.update (nanoid i) newPlayer ps) @ map nanoid [Suc i..<nat \<lceil>n\<rceil>])"
      using "1.prems" up u by simp
    from "1.IH"[OF True this] u up show ?thesis
      unfolding createPlayers_step[OF True] by simp
  next
    case False
    then have "nat \<lceil>n\<rceil> \<le> i" by linarith
    then show ?thesis unfolding createPlayers_stop[OF False] by simp
  qed
qed

text \<open>
  For a count \<open>k\<close> from 0 to 8 and pairwise different identifiers the constructor returns
  a game with exactly \<open>k\<close> players, in the order in which they were created.
\<close>

lemma new_Game_player_count:
  assumes "k \<le> 8" "inj_on nanoid {..<k}"
  shows "\<exists>g. new_Game random nanoid (of_nat k) = Inr g \<and> map fst (players g) = map nanoid [0..<k]
           \<and> length (players g) = k"
proof -
  have "distinct (map nanoid [0..<k])"
    using assms(2) by (simp add: distinct_map atLeast0LessThan)
  then have "map fst (createPlayers nanoid (of_nat k) 0 []) = map nanoid [0..<k]"
    using createPlayers_keys[of "[]" nanoid 0 "of_nat k"] by simp
  moreover have "(of_nat k :: rat) \<le> 8" using assms(1) by simp
  ultimately obtain g where "new_Game random nanoid (of_nat k) = Inr g"
    "map fst (players g) = map nanoid [0..<k]"
    using new_Game_succeeds[of "of_nat k" random nanoid] by auto
  moreover from this have "length (players g) = k" by (metis length_map length_upt diff_zero)
  ultimately show ?thesis by blast
qed

text \<open>
  Claim C6 does not hold of the code: the first check is
  \<^verbatim>\<open>!Number.isInteger(players) && players < 0\<close>, which no integer satisfies, so that for the
  counts 0 and -3 the constructor throws nothing and returns a game without players.
\<close>

theorem new_Game_zero_players:
  "(\<exists>g. new_Game random nanoid 0 = Inr g \<and> players g = [])
   \<and> (\<exists>g. new_Game random nanoid (- 3) = Inr g \<and> players g = [])"
  using new_Game_no_players[of 0 random nanoid] new_Game_no_players[of "- 3" random nanoid]
    isInteger_of_int[of 0] isInteger_of_int[of "- 3"]
  by simp

section \<open>The checks of addCardToTableTop\<close>

lemma lookupPlayer_InrD: "lookupPlayer ps from = Inr p \<Longrightarrow> map_of ps from = Some p"
  unfolding lookupPlayer_def by (auto split: option.splits if_splits)

lemma lookupPlayer_InlD: "lookupPlayer ps from = Inl e \<Longrightarrow> e = TypeError \<or> e = UnknownPlayer"
  unfolding lookupPlayer_def by (auto split: option.splits if_splits)

lemma lengthOf_InlD: "lengthOf v = Inl e \<Longrightarrow> e = TypeError"
  by (cases v) auto

lemma coveredCards_InlD: "coveredCards g = Inl e \<Longrightarrow> e = TypeError"
  unfolding coveredCards_def
  by (auto split: sum.splits elim: reduce.elims dest: lengthOf_InlD)

lemma includesCard_InlD: "includesCard d c = Inl e \<Longrightarrow> e = TypeError"
  by (cases d) auto

lemma reduceDeck_InlD: "reduceDeck d c = Inl e \<Longrightarrow> e = TypeError"
  unfolding reduceDeck_def by (cases d) (auto elim: reduce.elims)

lemma mapLabels_InlD: "mapLabels items = Inl e \<Longrightarrow> e = TypeError \<and> None \<in> set items"
proof (induction items)
  case Nil
  then show ?case by simp
next
  case (Cons item items)
  then show ?case by (cases item) (auto split: sum.splits)
qed

lemma mapLabels_InrD:
  "mapLabels items = Inr labels \<Longrightarrow>
   None \<notin> set items \<and> labels = map (\<lambda>item. labelOf (the item)) items"
proof (induction items arbitrary: labels)
  case Nil
  then show ?case by simp
next
  case (Cons item items)
  then show ?case by (cases item) (auto split: sum.splits simp: labelOf_def)
qed

lemma mapLabels_total:
  "None \<notin> set items \<Longrightarrow> mapLabels items = Inr (map (\<lambda>item. labelOf (the item)) items)"
proof (induction items)
  case Nil
  then show ?case by simp
next
  case (Cons item items)
  then show ?case by (cases item) (auto simp: labelOf_def)
qed

lemma flat_entries_cards:
  "None \<notin> set (concat (map (\<lambda>(k, v). [Some k, v]) t)) \<Longrightarrow>
   map the (concat (map (\<lambda>(k, v). [Some k, v]) t))
     = concat (map (\<lambda>(k, v). k # (case v of None \<Rightarrow> [] | Some s \<Rightarrow> [s])) t)"
  by (induction t) (auto split: option.splits)

lemma flat_entries_covered:
  "None \<notin> set (concat (map (\<lambda>(k, v). [Some k, v]) t)) \<longleftrightarrow> (\<forall>(k, v) \<in> set t. v \<noteq> None)"
  by (induction t) auto

lemma tableTopDeck_cards:
  "None \<notin> set (getTableTopDeck g) \<Longrightarrow> map the (getTableTopDeck g) = tableTopCards g"
  unfolding getTableTopDeck_def tableTopCards_def by (rule flat_entries_cards)

lemma tableTopDeck_covered:
  "None \<notin> set (getTableTopDeck g) \<longleftrightarrow> (\<forall>(k, v) \<in> set (tableTop g). v \<noteq> None)"
  unfolding getTableTopDeck_def by (rule flat_entries_covered)

text \<open>When the traversal of the table top succeeds, it yields the ranks of the cards on it.\<close>

lemma labels_of_table:
  assumes "mapLabels (getTableTopDeck g) = Inr labels"
  shows "labels = map labelOf (tableTopCards g)"
proof -
  from mapLabels_InrD[OF assms] have n: "None \<notin> set (getTableTopDeck g)"
    and l: "labels = map (\<lambda>item. labelOf (the item)) (getTableTopDeck g)" by auto
  have "map (\<lambda>item. labelOf (the item)) (getTableTopDeck g)
      = map labelOf (map the (getTableTopDeck g))"
    by simp
  with l tableTopDeck_cards[OF n] show ?thesis by simp
qed

text \<open>
  What \<^verbatim>\<open>reduce((item) => item !== null).length\<close> is: a TypeError on the empty table top,
  the \<^verbatim>\<open>length\<close> of the only value when there is one, \<^verbatim>\<open>undefined\<close> from two values on.
\<close>

lemma coveredCards_empty: "tableTop g = [] \<Longrightarrow> coveredCards g = Inl TypeError"
  by (simp add: coveredCards_def)

lemma coveredCards_one:
  "tableTop g = [(k, v)] \<Longrightarrow>
   coveredCards g = (case v of None \<Rightarrow> Inl TypeError | Some s \<Rightarrow> Inr (Some (int (length s))))"
  by (simp add: coveredCards_def toVal_def split: option.splits)

lemma foldl_callback:
  assumes "xs \<noteq> []"
  shows "\<exists>b. foldl (\<lambda>item cur. Bool (P item)) x xs = Bool b"
proof -
  from assms obtain ys y where "xs = ys @ [y]" by (metis append_butlast_last_id)
  then show ?thesis by simp
qed

lemma coveredCards_many:
  assumes "2 \<le> length (tableTop g)"
  shows "coveredCards g = Inr None"
proof -
  from assms obtain a b t where t: "tableTop g = a # b # t"
    by (cases "tableTop g"; cases "tl (tableTop g)") auto
  let ?f = "\<lambda>item cur. Bool (item \<noteq> Null)"
  have "map (toVal \<circ> snd) (tableTop g) = toVal (snd a) # map (toVal \<circ> snd) (b # t)"
    using t by simp
  moreover obtain r where "foldl ?f (toVal (snd a)) (map (toVal \<circ> snd) (b # t)) = Bool r"
    using foldl_callback[of "map (toVal \<circ> snd) (b # t)" "\<lambda>item. item \<noteq> Null"] by auto
  ultimately show ?thesis by (simp add: coveredCards_def)
qed

lemma validate_InrD:
  assumes "validate from c g = Inr p"
  shows "lookupPlayer (players g) from = Inr p"
    and "includesCard (player.deck p) c = Inr True"
    and "length (tableTop g) < 6"
    and "\<exists>labels. mapLabels (getTableTopDeck g) = Inr labels \<and> index (splitOf [] c) 0 \<in> set labels"
    and "\<exists>n. coveredCards g = Inr n"
  using assms unfolding validate_def
  by (auto split: if_splits sum.splits)

lemma reduceDeck_held:
  assumes "includesCard (Arr xs) c = Inr True"
  shows "\<exists>d. reduceDeck (Arr xs) c = Inr d"
proof -
  from assms have "xs \<noteq> []" by auto
  then obtain x xs' where "xs = x # xs'" by (cases xs) auto
  then show ?thesis by (simp add: reduceDeck_def)
qed

text \<open>What \<^verbatim>\<open>player.deck.reduce((item) => item !== card)\<close> returns is never an array.\<close>

lemma reduceDeck_InrD:
  assumes "reduceDeck d c = Inr r"
  shows "\<forall>xs. r \<noteq> Arr xs"
proof -
  from assms obtain x xs where d: "d = Arr (x # xs)"
    unfolding reduceDeck_def by (cases d; cases "cardsHeld d") auto
  show ?thesis
  proof (cases xs)
    case Nil
    with d assms show ?thesis by (auto simp: reduceDeck_def)
  next
    case (Cons y ys)
    then have "map Str xs \<noteq> []" by simp
    from foldl_callback[OF this, of "\<lambda>item. item \<noteq> Str c" "Str x"] d assms
    show ?thesis by (auto simp: reduceDeck_def)
  qed
qed

lemma add_ErrorD:
  assumes "fst (addCardToTableTop from c g) = Some (Error m)"
  shows "validate from c g = Inl (Error m)"
proof (cases "validate from c g")
  case (Inl e)
  with assms show ?thesis by (simp add: addCardToTableTop_def)
next
  case (Inr p)
  with assms show ?thesis
    by (auto simp: addCardToTableTop_def Let_def split: sum.splits dest: reduceDeck_InlD)
qed

text \<open>On an empty table top the call always throws and writes nothing.\<close>

lemma add_empty_table:
  assumes "tableTop g = []"
  shows "\<exists>e. addCardToTableTop from c g = (Some e, g)"
proof (cases "validate from c g")
  case (Inl e)
  then show ?thesis by (simp add: addCardToTableTop_def)
next
  case (Inr p)
  from validate_InrD(5)[OF Inr] coveredCards_empty[OF assms] show ?thesis by auto
qed

section \<open>Failure leaves the state unchanged\<close>

text \<open>
  Claim C7. If \<open>addCardToTableTop\<close> fails with one of the errors it throws itself (any
  \<open>Error m\<close>), then the game after the call is the game before it: hands, table top, stock,
  trump and history. The same holds of a TypeError of the runtime whenever every
  \<^verbatim>\<open>player.deck\<close> is an array, as the constructor creates it.
\<close>

theorem addCardToTableTop_failure_atomic:
  "fst (addCardToTableTop from c g) = Some e \<Longrightarrow>
   (\<exists>m. e = Error m) \<or> (\<forall>p \<in> snd ` set (players g). \<exists>xs. player.deck p = Arr xs) \<Longrightarrow>
   snd (addCardToTableTop from c g) = g"
proof (cases "validate from c g")
  case (Inl e')
  then show ?thesis by (simp add: addCardToTableTop_def)
next
  case (Inr p)
  assume failed: "fst (addCardToTableTop from c g) = Some e"
    and kind: "(\<exists>m. e = Error m) \<or> (\<forall>p \<in> snd ` set (players g). \<exists>xs. player.deck p = Arr xs)"
  note v = validate_InrD[OF Inr]
  show ?thesis
  proof (cases "reduceDeck (player.deck p) c")
    case (Inl e')
    with Inr failed have e: "e = e'" by (simp add: addCardToTableTop_def Let_def)
    with Inl have "e = TypeError" using reduceDeck_InlD by blast
    with kind have arr: "\<forall>p \<in> snd ` set (players g). \<exists>xs. player.deck p = Arr xs" by auto
    have "(from, p) \<in> set (players g)"
      using lookupPlayer_InrD[OF v(1)] by (rule map_of_SomeD)
    with arr obtain xs where "player.deck p = Arr xs" by force
    with v(2) reduceDeck_held[of xs c] Inl show ?thesis by auto
  next
    case (Inr d)
    with \<open>validate from c g = Inr p\<close> failed show ?thesis
      by (simp add: addCardToTableTop_def Let_def)
  qed
qed

theorem addCardToTableTop_failure_atomic_witness:
  "fst (addCardToTableTop (u16 ''p1'') (cardString (u16 ''9'') clubs) coveredTable) = Some RankNotOnTable
   \<and> snd (addCardToTableTop (u16 ''p1'') (cardString (u16 ''9'') clubs) coveredTable) = coveredTable"
proof -
  have h: "fst (addCardToTableTop (u16 ''p1'') (cardString (u16 ''9'') clubs) coveredTable)
      = Some RankNotOnTable"
    by (simp add: coveredTable_def engine_defs card_defs)
  from addCardToTableTop_failure_atomic[OF h] h show ?thesis by blast
qed

section \<open>What a successful call writes\<close>

text \<open>
  A call that returns normally has put the card on the table top as an uncovered attack and
  has replaced the deck of the player by a value that is not an array; the history, the
  stock and the other players are as before.
\<close>

lemma add_success:
  assumes "fst (addCardToTableTop from c g) = None"
  shows "\<exists>p d. map_of (players g) from = Some p \<and> (\<forall>xs. d \<noteq> Arr xs)
     \<and> snd (addCardToTableTop from c g) =
         g\<lparr>tableTop := AList.update c None (tableTop g),
           players := AList.update from (p\<lparr>player.deck := d\<rparr>) (players g)\<rparr>"
proof -
  from assms obtain p where v: "validate from c g = Inr p"
    by (cases "validate from c g") (auto simp: addCardToTableTop_def)
  with assms obtain d where d: "reduceDeck (player.deck p) c = Inr d"
    by (cases "reduceDeck (player.deck p) c") (auto simp: addCardToTableTop_def Let_def)
  from lookupPlayer_InrD[OF validate_InrD(1)[OF v]] reduceDeck_InrD[OF d] v d
  show ?thesis by (auto simp: addCardToTableTop_def Let_def)
qed

text \<open>
  Claim C2 does not hold of the code. In \<open>coveredTable\<close> the player \<^verbatim>\<open>p1\<close> holds the seven of
  hearts and the nine of clubs and attacks with the seven of hearts. All checks pass and the
  card is put on the table top as an uncovered attack, but \<^verbatim>\<open>player.deck\<close> becomes the
  boolean \<^verbatim>\<open>false\<close> instead of the hand without the card (\<^verbatim>\<open>reduce\<close> where \<^verbatim>\<open>filter\<close> was
  meant), and the history stays empty.
\<close>

theorem addCardToTableTop_success_example:
  "addCardToTableTop (u16 ''p1'') (cardString (u16 ''7'') hearts) coveredTable =
     (None, coveredTable\<lparr>
        tableTop := [(cardString (u16 ''7'') diamonds, Some (cardString (u16 ''8'') diamonds)),
                     (cardString (u16 ''7'') hearts, None)],
        players := [(u16 ''p1'', \<lparr>player.deck = Bool False, startsFirst = True, defending = False\<rparr>),
                    (u16 ''p2'', holding [cardString (u16 ''10'') spades] True)]\<rparr>)
   \<and> history coveredTable = []"
  by (simp add: coveredTable_def engine_defs card_defs)

section \<open>The check of the defender's cards\<close>

text \<open>
  The error \<open>InsufficientDefenderCards\<close> is thrown only when exactly one attack lies on the
  table and it is covered; while no attack is covered the call neither throws it nor
  returns normally.
\<close>

lemma insufficient_single_covered:
  assumes "fst (addCardToTableTop from c g) = Some InsufficientDefenderCards"
  shows "\<exists>k s. tableTop g = [(k, Some s)]"
proof -
  from add_ErrorD[OF assms] obtain n dl where
    n: "coveredCards g = Inr n" "exceeds (length (tableTop g)) n dl"
    unfolding validate_def
    by (auto split: if_splits sum.splits
        dest: lookupPlayer_InlD lengthOf_InlD coveredCards_InlD includesCard_InlD mapLabels_InlD)
  have "\<not> 2 \<le> length (tableTop g)"
    using n coveredCards_many[of g] by auto
  moreover have "tableTop g \<noteq> []" using n(1) coveredCards_empty[of g] by auto
  ultimately obtain k v where t: "tableTop g = [(k, v)]"
    by (cases "tableTop g"; cases "tl (tableTop g)") auto
  with n(1) coveredCards_one[OF t] show ?thesis by (cases v) auto
qed

lemma uncovered_never_accepts:
  assumes "\<forall>(k, v) \<in> set (tableTop g). v = None"
  shows "fst (addCardToTableTop from c g) \<noteq> None
    \<and> fst (addCardToTableTop from c g) \<noteq> Some InsufficientDefenderCards"
proof -
  have "fst (addCardToTableTop from c g) \<noteq> Some InsufficientDefenderCards"
    using insufficient_single_covered[of "from" c g] assms by auto
  moreover have "fst (addCardToTableTop from c g) \<noteq> None"
  proof
    assume "fst (addCardToTableTop from c g) = None"
    then obtain p where v: "validate from c g = Inr p"
      by (cases "validate from c g") (auto simp: addCardToTableTop_def)
    from validate_InrD(4)[OF v] obtain labels where "mapLabels (getTableTopDeck g) = Inr labels"
      by blast
    from mapLabels_InrD[OF this] have "\<forall>(k, v) \<in> set (tableTop g). v \<noteq> None"
      by (simp add: tableTopDeck_covered)
    moreover from validate_InrD(5)[OF v] have "tableTop g \<noteq> []"
      using coveredCards_empty[of g] by auto
    ultimately show False using assms by (cases "tableTop g") auto
  qed
  ultimately show ?thesis by blast
qed

text \<open>
  Claim C3 does not hold of the code. In scenario D (one uncovered attack, the defender holds
  two cards) the second attack does not succeed: \<^verbatim>\<open>reduce\<close> returns the only value,
  \<^verbatim>\<open>null\<close>, and reading its \<^verbatim>\<open>length\<close> raises a TypeError. With two uncovered attacks the
  third attack is not rejected by the check: \<^verbatim>\<open>reduce\<close> returns a boolean, the comparison
  with \<^verbatim>\<open>NaN\<close> is false, and the call ends in the TypeError of \<^verbatim>\<open>parseCard(null)\<close>.
\<close>

theorem addCardToTableTop_scenarioD:
  "addCardToTableTop (u16 ''p1'') (cardString (u16 ''7'') diamonds) scenarioD
     = (Some TypeError, scenarioD)
   \<and> addCardToTableTop (u16 ''p1'') (cardString (u16 ''7'') clubs) scenarioD2
     = (Some TypeError, scenarioD2)"
  by (simp add: scenarioD_def scenarioD2_def engine_defs card_defs)

section \<open>The rank of a further attack\<close>



text \<open>
  The check of the rank has no case for an empty table top: the ranks it collects there are
  none, so \<^verbatim>\<open>[].includes(cardLabel)\<close> is false for every card.
\<close>

lemma rank_check_empty_table:
  "tableTop g = [] \<Longrightarrow> mapLabels (getTableTopDeck g) = Inr [] \<and> \<not> rankOnTable c g"
  by (simp add: getTableTopDeck_def rankOnTable_def tableTopCards_def)

lemma card_valid:
  assumes "c \<in> set generateCardDeck"
  shows "\<exists>l s. splitOf [] c = [l, s] \<and> l \<in> set CardLabels \<and> s \<in> set CardSuits"
  using assms by (auto simp: set_generateCardDeck splitOf_cardString)

lemma card_nonempty: "s \<in> set generateCardDeck \<Longrightarrow> 1 \<le> length s"
  by (auto simp: set_generateCardDeck cardString_def sepOf_units)

lemma capacity_passes:
  assumes ne: "tableTop g \<noteq> []"
    and cov: "\<forall>(k, v) \<in> set (tableTop g). \<exists>s \<in> set generateCardDeck. v = Some s"
    and xs: "xs \<noteq> []"
  shows "\<exists>n. coveredCards g = Inr n \<and> \<not> exceeds (length (tableTop g)) n (Some (int (length xs)))"
proof (cases "2 \<le> length (tableTop g)")
  case True
  then show ?thesis by (simp add: coveredCards_many)
next
  case False
  with ne obtain k v where t: "tableTop g = [(k, v)]"
    by (cases "tableTop g"; cases "tl (tableTop g)") auto
  with cov obtain s where s: "v = Some s" "s \<in> set generateCardDeck" by auto
  from card_nonempty[OF s(2)] xs have "\<not> int 1 - int (length s) + 1 > int (length xs)"
    by (cases xs) auto
  with t s coveredCards_one[OF t] show ?thesis by simp
qed

lemma all_covered:
  assumes "\<forall>(k, v) \<in> set (tableTop g). \<exists>s \<in> set generateCardDeck. v = Some s"
  shows "mapLabels (getTableTopDeck g) = Inr (map labelOf (tableTopCards g))"
proof -
  from assms have "\<forall>(k, v) \<in> set (tableTop g). v \<noteq> None" by fastforce
  then have n: "None \<notin> set (getTableTopDeck g)" by (simp add: tableTopDeck_covered)
  from mapLabels_total[OF n] labels_of_table show ?thesis by auto
qed

lemma validate_last_check:
  assumes "length (tableTop g) < 6" "map_of (players g) from = Some p" "player.deck p = Arr xs"
    "c \<in> set xs" "c \<in> set generateCardDeck"
    "\<forall>(k, v) \<in> set (tableTop g). \<exists>s \<in> set generateCardDeck. v = Some s" "tableTop g \<noteq> []"
  shows "validate from c g = (if rankOnTable c g then Inr p else Inl RankNotOnTable)"
proof -
  from assms(4) have "xs \<noteq> []" by auto
  from capacity_passes[OF assms(7,6) this] obtain n where
    n: "coveredCards g = Inr n" "\<not> exceeds (length (tableTop g)) n (Some (int (length xs)))" by blast
  from card_valid[OF assms(5)] obtain l s where
    ls: "splitOf [] c = [l, s]" "l \<in> set CardLabels" "s \<in> set CardSuits" by blast
  have "lookupPlayer (players g) from = Inr p" using assms(2) by (simp add: lookupPlayer_def)
  with assms(1,3,4) n ls all_covered[OF assms(6)] show ?thesis
    by (simp add: validate_def index_def rankOnTable_def labelOf_def)
qed


text \<open>
  On a table top whose attacks are all covered by cards of the deck, a player who holds the
  played card passes every earlier check, and the check of the rank decides the call.
\<close>

lemma covered_table_rank_check:
  assumes "length (tableTop g) < 6" "map_of (players g) from = Some p" "player.deck p = Arr xs"
    "c \<in> set xs" "c \<in> set generateCardDeck"
    "\<forall>(k, v) \<in> set (tableTop g). \<exists>s \<in> set generateCardDeck. v = Some s" "tableTop g \<noteq> []"
  shows "fst (addCardToTableTop from c g) = (if rankOnTable c g then None else Some RankNotOnTable)"
proof -
  have v: "validate from c g = (if rankOnTable c g then Inr p else Inl RankNotOnTable)"
    by (rule validate_last_check[OF assms])
  from assms(4) have "includesCard (Arr xs) c = Inr True" by simp
  from reduceDeck_held[OF this] obtain d where "reduceDeck (Arr xs) c = Inr d" by blast
  with v assms(3) show ?thesis
    by (simp add: addCardToTableTop_def Let_def)
qed



section \<open>Reachable states and the conservation of cards\<close>

text \<open>
  The table top of a reachable state is empty: the constructor leaves it empty, the first
  attack always throws, and no other method writes. So a reachable state is as the
  constructor left it, with the 52 cards in the stock and the hands, and no attack ever
  succeeds in it.
\<close>

lemma reachable_invariant:
  "reachable g \<Longrightarrow> tableTop g = [] \<and> allCards g = mset generateCardDeck"
proof (induction rule: reachable.induct)
  case (constructed random nanoid n g)
  then show ?case using new_Game_conserved new_Game_InrD(2) by blast
next
  case (addCard g "from" c r g')
  then obtain e where "addCardToTableTop from c g = (Some e, g)"
    using add_empty_table by blast
  with addCard show ?case by simp
qed (simp_all add: coverCardOnTableTop_def addHistoryNode_def moveTableTopTo_def
       voidTableTop_def serialize_def)

lemma reachable_add_fails:
  "reachable g \<Longrightarrow> \<exists>e. addCardToTableTop from c g = (Some e, g)"
  using reachable_invariant add_empty_table by blast

lemma reachable_conserved:
  "reachable g \<Longrightarrow>
     allCards g = mset generateCardDeck
     \<and> (\<forall>c. count (allCards g) c = (if c \<in> set generateCardDeck then 1 else 0))
     \<and> size (allCards g) = 52"
  using reachable_invariant[of g] count_generateCardDeck length_generateCardDeck
  by simp

text \<open>A game of two players is reachable, and every attack in it throws.\<close>

lemma first_attack_throws:
  "\<exists>g. new_Game (\<lambda>k. 1 / 2) (\<lambda>i. replicate (Suc i) 0x70) 2 = Inr g \<and> length (players g) = 2
     \<and> reachable g \<and> (\<forall>from c. fst (addCardToTableTop from c g) \<noteq> None)"
proof -
  have "inj_on (\<lambda>i. replicate (Suc i) (0x70 :: 16 word)) {..<2}"
    by (simp add: inj_on_def)
  from new_Game_player_count[OF _ this, of "\<lambda>k. 1 / 2"] obtain g where
    g: "new_Game (\<lambda>k. 1 / 2) (\<lambda>i. replicate (Suc i) 0x70) 2 = Inr g" "length (players g) = 2"
    by auto
  have "\<forall>k::nat. (0::rat) \<le> 1 / 2 \<and> (1 / 2 :: rat) < 1" by simp
  then have r: "reachable g" using g(1) by (rule reachable.constructed)
  have "fst (addCardToTableTop from c g) \<noteq> None" for "from" c
    using reachable_add_fails[OF r, of "from" c] by auto
  with g r show ?thesis by blast
qed


section \<open>Covering an attack\<close>

text \<open>
  Claim C5, as stated, fails: \<open>coverCardOnTableTop\<close> checks nothing. In scenario B the six of
  hearts does not beat the seven of hearts by the rule of the specification, yet the call
  returns normally.
\<close>

theorem coverCardOnTableTop_illegal_cover_counterexample:
  "\<not> spec_beats (trumpSuite scenarioB) (cardString (u16 ''7'') hearts) (cardString (u16 ''6'') hearts)
   \<and> map_of (tableTop scenarioB) (cardString (u16 ''7'') hearts) = Some None
   \<and> fst (coverCardOnTableTop (cardString (u16 ''7'') hearts) (cardString (u16 ''6'') hearts) scenarioB)
       = None"
  by (simp add: scenarioB_def coverCardOnTableTop_def spec_beats_def suitOf_def rankOf_def
      labelOf_def index_def card_defs)

text \<open>
  Claim C5, amended. \<open>coverCardOnTableTop\<close> has an empty body: for every attacked card, every
  covering card and every state it returns normally and leaves the state as it was; it never
  fails with \<open>IllegalCover\<close> and it covers nothing.
\<close>

theorem coverCardOnTableTop_no_check:
  "coverCardOnTableTop c coveringCard g = (None, g)"
  by (simp add: coverCardOnTableTop_def)

end
